theory Spec2Isabelle
  imports Main "HOL-Library.Word"
begin

section \<open>The membership registry of clubWebsite (database/models.py)\<close>

text \<open>
  The module holds one ORM class, \<open>Member\<close>, with the confirmation workflow of the club's
  sign-up form. The embedding follows the Python text method by method.

  \<^item> A point in time (\<open>datetime\<close>) is an integer counting microseconds, the resolution
    of \<open>datetime\<close>; a \<open>timedelta\<close> is an integer of microseconds as well. The range
    limits of \<open>datetime\<close> (years 1 to 9999) are not modelled.
  \<^item> A nullable column is an \<open>option\<close>. The column \<open>is_confirmed\<close> has the default
    \<open>False\<close> and is a \<open>bool\<close>.
  \<^item> The clock (\<open>datetime.datetime.utcnow()\<close>), the random bytes behind
    \<open>secrets.token_urlsafe\<close> and the outcome of the SendGrid call are inputs of the
    functions that use them.
  \<^item> An exception is a value of type \<open>error\<close>. A method returns its result together
    with the object it ran on and the database, since both survive an exception.
\<close>

subsection \<open>Data\<close>

record member =
  student_id :: int
  email :: string
  first_name :: string
  last_name :: string
  time_added :: "int option"
  confirmation_token :: "string option"
  confirmation_time :: "int option"
  is_confirmed :: bool

record mail =
  from_email :: string
  to_emails :: string
  subject :: string
  html_content :: string

text \<open>
  The database: the rows of the table \<open>members\<close>, the messages SendGrid has accepted, and
  the lines printed on standard output.
\<close>

record db =
  rows :: "member list"
  outbox :: "mail list"
  stdout :: "string list"

datatype error = TypeError | AttributeError | ArgumentError

subsection \<open>Time\<close>

definition second :: int where
  "second = 1000000"

text \<open>\<open>datetime.timedelta(hours=expire_delta)\<close>, in microseconds.\<close>

definition timedelta_hours :: "int \<Rightarrow> int" where
  "timedelta_hours expire_delta = expire_delta * 3600 * second"

subsection \<open>The session\<close>

text \<open>\<open>Member.query.get(student_id)\<close>: the row with this primary key, if there is one.\<close>

definition query_get :: "int \<Rightarrow> db \<Rightarrow> member option" where
  "query_get sid st = find (\<lambda>m. student_id m = sid) (rows st)"

text \<open>\<open>db.session.add(new_member)\<close> followed by \<open>db.session.commit()\<close>.\<close>

definition session_add :: "member \<Rightarrow> db \<Rightarrow> db" where
  "session_add m st = st\<lparr>rows := rows st @ [m]\<rparr>"

text \<open>
  \<open>db.session.commit()\<close> after an attribute of the object \<open>self\<close> was assigned: the row
  with the primary key of \<open>self\<close> takes the attributes of \<open>self\<close>. An object that was
  never added to the session has no row, and nothing is written for it.
\<close>

definition commit :: "member \<Rightarrow> db \<Rightarrow> db" where
  "commit self st =
     st\<lparr>rows := map (\<lambda>r. if student_id r = student_id self then self else r) (rows st)\<rparr>"

subsection \<open>Token expiry\<close>

text \<open>
  \<open>self.confirmation_time + datetime.timedelta(hours=expire_delta)\<close>: adding a
  \<open>timedelta\<close> to \<open>None\<close> raises \<open>TypeError\<close>.
\<close>

definition get_token_expire_time :: "member \<Rightarrow> int \<Rightarrow> error + int" where
  "get_token_expire_time self expire_delta =
     (case confirmation_time self of
        None \<Rightarrow> Inl TypeError
      | Some t \<Rightarrow> Inr (t + timedelta_hours expire_delta))"

text \<open>
  \<open>time_left\<close> is \<open>total_seconds()\<close> of the difference, the microseconds divided by
  \<open>10 ** 6\<close> as a float. The division keeps the sign and gives zero only for zero, so
  the test \<open>time_left <= 0\<close> is the test on the microseconds.
\<close>

definition has_token_expired :: "int \<Rightarrow> member \<Rightarrow> int \<Rightarrow> error + bool" where
  "has_token_expired now self expire_delta =
     (case get_token_expire_time self expire_delta of
        Inl e \<Rightarrow> Inl e
      | Inr expire_time \<Rightarrow> Inr (expire_time - now \<le> 0))"

subsection \<open>Confirmation\<close>

definition msg_already_confirmed :: string where
  "msg_already_confirmed = ''Your membership has already been confirmed''"

definition msg_not_sent :: string where
  "msg_not_sent = ''Your confirmation email has not been sent out, please wait''"

definition msg_expired :: string where
  "msg_expired = ''Confirmation link expired, please try again''"

definition msg_confirmed :: string where
  "msg_confirmed = ''Your membership has been confirmed''"

definition msg_invalid :: string where
  "msg_invalid = ''Confirmation token invalid, please try again''"

text \<open>
  \<open>not self.confirmation_token\<close>: Python's truth test on a nullable string holds for
  \<open>None\<close> and for the empty string.
\<close>

definition token_missing :: "string option \<Rightarrow> bool" where
  "token_missing tok = (case tok of None \<Rightarrow> True | Some s \<Rightarrow> s = [])"

text \<open>
  \<open>confirm(self, confirmation_token, expire_delta)\<close>. The supplied token is whatever the
  caller read from the request, \<open>None\<close> included. The result is what the method returns
  or raises, the object \<open>self\<close> afterwards and the database afterwards.
\<close>

definition confirm ::
  "int \<Rightarrow> string option \<Rightarrow> int \<Rightarrow> member \<Rightarrow> db \<Rightarrow> (error + bool \<times> string) \<times> member \<times> db" where
  "confirm now supplied expire_delta self st =
     (if is_confirmed self then
        (Inr (True, msg_already_confirmed), self, st)
      else if token_missing (confirmation_token self) then
        (Inr (False, msg_not_sent), self, st)
      else
        (case has_token_expired now self expire_delta of
           Inl e \<Rightarrow> (Inl e, self, st)
         | Inr expired \<Rightarrow>
             if expired then
               (Inr (False, msg_expired), self, st)
             else if confirmation_token self = supplied then
               (let self' = self\<lparr>is_confirmed := True\<rparr>
                in (Inr (True, msg_confirmed), self', commit self' st))
             else
               (Inr (False, msg_invalid), self, st)))"

subsection \<open>Token generation\<close>

text \<open>
  \<open>secrets.token_urlsafe(nbytes)\<close> is, in the standard library,
  \<open>base64.urlsafe_b64encode(token_bytes(nbytes)).rstrip(b'=').decode('ascii')\<close>, and
  \<open>token_bytes(nbytes)\<close> is \<open>os.urandom(nbytes)\<close>. The system's source of random
  bytes is the input, byte \<open>i\<close> of it being the \<open>i\<close>-th byte a draw reads; the
  encoding is RFC 4648's with the alphabet that is safe in a URL.
\<close>

definition urlsafe_alphabet :: string where
  "urlsafe_alphabet = ''ABCDEFGHIJKLMNOPQRSTUVWXYZabcdefghijklmnopqrstuvwxyz0123456789-_''"

definition sextet :: "nat \<Rightarrow> char" where
  "sextet n = urlsafe_alphabet ! n"

fun urlsafe_b64encode :: "8 word list \<Rightarrow> string" where
  "urlsafe_b64encode [] = []"
| "urlsafe_b64encode [a] =
     [sextet (unat a div 4), sextet (unat a mod 4 * 16), CHR ''='', CHR ''='']"
| "urlsafe_b64encode [a, b] =
     [sextet (unat a div 4), sextet (unat a mod 4 * 16 + unat b div 16),
      sextet (unat b mod 16 * 4), CHR ''='']"
| "urlsafe_b64encode (a # b # c # bs) =
     [sextet (unat a div 4), sextet (unat a mod 4 * 16 + unat b div 16),
      sextet (unat b mod 16 * 4 + unat c div 64), sextet (unat c mod 64)]
     @ urlsafe_b64encode bs"

definition rstrip :: "char \<Rightarrow> string \<Rightarrow> string" where
  "rstrip c s = rev (dropWhile (\<lambda>x. x = c) (rev s))"

text \<open>\<open>base64.urlsafe_b64encode(tok).rstrip(b'=')\<close>, the value \<open>token_urlsafe\<close> returns.\<close>

definition urlsafe_unpadded :: "8 word list \<Rightarrow> string" where
  "urlsafe_unpadded tok = rstrip (CHR ''='') (urlsafe_b64encode tok)"

definition token_bytes :: "nat \<Rightarrow> (nat \<Rightarrow> 8 word) \<Rightarrow> 8 word list" where
  "token_bytes nbytes urandom = map urandom [0..<nbytes]"

definition token_urlsafe :: "nat \<Rightarrow> (nat \<Rightarrow> 8 word) \<Rightarrow> string" where
  "token_urlsafe nbytes urandom = urlsafe_unpadded (token_bytes nbytes urandom)"

text \<open>The number of \<open>=\<close> signs that end the encoding of \<open>n\<close> bytes.\<close>

definition padding :: "nat \<Rightarrow> nat" where
  "padding n = (3 - n mod 3) mod 3"

text \<open>
  \<open>generate_confirmation_token(self)\<close>, given the clock and the source of random
  bytes, of which \<open>secrets.token_urlsafe(nbytes=32)\<close> reads 32. It returns the token,
  the object and the database.
\<close>

definition generate_confirmation_token ::
  "int \<Rightarrow> (nat \<Rightarrow> 8 word) \<Rightarrow> member \<Rightarrow> db \<Rightarrow> string \<times> member \<times> db" where
  "generate_confirmation_token now urandom self st =
     (let self' = self\<lparr>confirmation_token := Some (token_urlsafe 32 urandom),
                        confirmation_time := Some now\<rparr>
      in (token_urlsafe 32 urandom, self', commit self' st))"

subsection \<open>Registration\<close>

text \<open>
  The keyword arguments of the constructor reach \<open>db.Model.__init__\<close>, which assigns the
  columns they name; the four columns below are the ones the positional parameters leave.
\<close>

record kwargs =
  kw_time_added :: "int option"
  kw_confirmation_token :: "string option"
  kw_confirmation_time :: "int option"
  kw_is_confirmed :: "bool option"

text \<open>
  The object as the first commit stores it: a column without a keyword argument takes its
  default, \<open>utcnow()\<close> for \<open>time_added\<close>, \<open>False\<close> for \<open>is_confirmed\<close>, and
  \<open>NULL\<close> for the two confirmation columns.
\<close>

definition new_Member :: "int \<Rightarrow> string \<Rightarrow> string \<Rightarrow> string \<Rightarrow> kwargs \<Rightarrow> int \<Rightarrow> member" where
  "new_Member sid mail_addr fname lname kw now =
     \<lparr>student_id = sid, email = mail_addr, first_name = fname, last_name = lname,
      time_added = (case kw_time_added kw of None \<Rightarrow> Some now | Some t \<Rightarrow> Some t),
      confirmation_token = kw_confirmation_token kw,
      confirmation_time = kw_confirmation_time kw,
      is_confirmed = (case kw_is_confirmed kw of None \<Rightarrow> False | Some b \<Rightarrow> b)\<rparr>"

text \<open>
  What the \<open>try\<close> block meets: SendGrid accepts the message, or an exception is raised.
  The handler reads \<open>e.message\<close>; an exception of Python 3 has that attribute only when
  its class defines it, so the exception carries the attribute's value if it has one.
\<close>

datatype send_outcome = Accepted | Raised "string option"

text \<open>
  The surroundings of one call of \<open>get_or_create\<close>: the clock at the insert and at the
  token's generation, the random bytes, \<open>flask.request.url_root\<close>, the path
  \<open>url_for('views.confirm', id=..., confirmation_token=...)\<close> builds, and SendGrid.
\<close>

record env =
  utcnow_insert :: int
  utcnow_token :: int
  os_urandom :: "nat \<Rightarrow> 8 word"
  url_root :: string
  url_for_confirm :: "int \<Rightarrow> string \<Rightarrow> string"
  sendgrid :: send_outcome

definition confirmation_mail :: "string \<Rightarrow> string \<Rightarrow> mail" where
  "confirmation_mail recipient confirmation_link =
     \<lparr>from_email = ''no-reply@epclub.pythonanywhere.com'',
      to_emails = recipient,
      subject = ''Club membership confirmation'',
      html_content = ''Click this link to confirm your membership: <a href='' @ [CHR 0x22]
        @ confirmation_link @ [CHR 0x22] @ ''>'' @ confirmation_link @ ''</a>''\<rparr>"

text \<open>
  \<open>get_or_create\<close>. The result is the returned object (\<open>None\<close> after a handled send
  failure) or the exception that leaves the method, and the database.
\<close>

definition get_or_create ::
  "int \<Rightarrow> string \<Rightarrow> string \<Rightarrow> string \<Rightarrow> kwargs \<Rightarrow> env \<Rightarrow> db \<Rightarrow> (error + member option) \<times> db" where
  "get_or_create sid mail_addr fname lname kw ev st =
     (case query_get sid st of
        Some current_member \<Rightarrow> (Inr (Some current_member), st)
      | None \<Rightarrow>
          (let new_member = new_Member sid mail_addr fname lname kw (utcnow_insert ev);
               st1 = session_add new_member st;
               (token, new_member', st2) =
                 generate_confirmation_token (utcnow_token ev) (os_urandom ev) new_member st1;
               confirmation_link =
                 rstrip (CHR ''/'') (url_root ev) @ url_for_confirm ev sid token;
               message = confirmation_mail mail_addr confirmation_link
           in (case sendgrid ev of
                 Accepted \<Rightarrow> (Inr (Some new_member'), st2\<lparr>outbox := outbox st2 @ [message]\<rparr>)
               | Raised (Some text) \<Rightarrow> (Inr None, st2\<lparr>stdout := stdout st2 @ [text]\<rparr>)
               | Raised None \<Rightarrow> (Inl AttributeError, st2))))"

subsection \<open>Pruning\<close>

text \<open>\<open>Member.query.filter_by(is_confirmed=False).all()\<close>.\<close>

definition filter_by_unconfirmed :: "db \<Rightarrow> member list" where
  "filter_by_unconfirmed st = filter (\<lambda>m. is_confirmed m = False) (rows st)"

text \<open>The \<open>for\<close> loop of \<open>prune_expired\<close>, with \<open>delete_ids\<close> as the accumulator.\<close>

fun delete_ids_loop :: "int \<Rightarrow> int \<Rightarrow> member list \<Rightarrow> int list \<Rightarrow> error + int list" where
  "delete_ids_loop now expire_delta [] delete_ids = Inr delete_ids"
| "delete_ids_loop now expire_delta (m # ms) delete_ids =
     (case has_token_expired now m expire_delta of
        Inl e \<Rightarrow> Inl e
      | Inr expired \<Rightarrow>
          delete_ids_loop now expire_delta ms
            (if expired then delete_ids @ [student_id m] else delete_ids))"

text \<open>
  \<open>Member.query.delete(delete_ids)\<close>. The method is SQLAlchemy's
  \<open>Query.delete(synchronize_session='evaluate')\<close>: its one parameter names how the
  session is brought up to date, and the rows it deletes are those the query selects,
  here every row of the table. It accepts \<open>'evaluate'\<close>, \<open>'fetch'\<close> and \<open>False\<close>,
  and refuses any other value with an exception before a row is deleted; the exception is
  called \<open>ArgumentError\<close> here, after the one SQLAlchemy names for it.
\<close>

datatype py_value = PyStr string | PyBool bool | PyList "int list"

definition query_delete :: "py_value \<Rightarrow> db \<Rightarrow> (error + nat) \<times> db" where
  "query_delete synchronize_session st =
     (if synchronize_session = PyStr ''evaluate'' \<or> synchronize_session = PyStr ''fetch''
         \<or> synchronize_session = PyBool False
      then (Inr (length (rows st)), st\<lparr>rows := []\<rparr>)
      else (Inl ArgumentError, st))"

definition prune_expired :: "int \<Rightarrow> int \<Rightarrow> db \<Rightarrow> (error + unit) \<times> db" where
  "prune_expired now expire_delta st =
     (case delete_ids_loop now expire_delta (filter_by_unconfirmed st) [] of
        Inl e \<Rightarrow> (Inl e, st)
      | Inr delete_ids \<Rightarrow>
          (case query_delete (PyList delete_ids) st of
             (Inl e, st') \<Rightarrow> (Inl e, st')
           | (Inr n, st') \<Rightarrow> (Inr (), st')))"

text \<open>
  Modelled from the spec: the store's \<open>delete(ids: set<student_id>)\<close> of section 6,
  which the repository does not implement. It removes the rows whose key is among the ids.
\<close>

definition store_delete :: "int list \<Rightarrow> db \<Rightarrow> db" where
  "store_delete ids st = st\<lparr>rows := filter (\<lambda>m. student_id m \<notin> set ids) (rows st)\<rparr>"

text \<open>
  The sweep in the spec's words (section 4.1): scan the members with
  \<open>is_confirmed == false\<close>, and delete those whose token has expired, through the store's
  \<open>delete(ids)\<close>. It is the source's method with the last call replaced.
\<close>

definition prune_expired_spec :: "int \<Rightarrow> int \<Rightarrow> db \<Rightarrow> (error + unit) \<times> db" where
  "prune_expired_spec now expire_delta st =
     (case delete_ids_loop now expire_delta (filter_by_unconfirmed st) [] of
        Inl e \<Rightarrow> (Inl e, st)
      | Inr delete_ids \<Rightarrow> (Inr (), store_delete delete_ids st))"

subsection \<open>Runs of the registry\<close>

text \<open>
  One call of the registry from outside: a registration, or a method called on the stored
  member with a given key (nothing happens when there is none), or a sweep, the source's
  or the spec's. An exception ends the call; the database is the one it left.
\<close>

datatype call =
    Get_or_create int string string string kwargs env
  | Generate_confirmation_token int int "nat \<Rightarrow> 8 word"
  | Confirm int int "string option" int
  | Prune_expired int int
  | Prune_expired_spec int int

fun run_call :: "call \<Rightarrow> db \<Rightarrow> db" where
  "run_call (Get_or_create sid mail_addr fname lname kw ev) st =
     snd (get_or_create sid mail_addr fname lname kw ev st)"
| "run_call (Generate_confirmation_token sid now urandom) st =
     (case query_get sid st of
        None \<Rightarrow> st
      | Some m \<Rightarrow> snd (snd (generate_confirmation_token now urandom m st)))"
| "run_call (Confirm sid now supplied expire_delta) st =
     (case query_get sid st of
        None \<Rightarrow> st
      | Some m \<Rightarrow> snd (snd (confirm now supplied expire_delta m st)))"
| "run_call (Prune_expired now expire_delta) st = snd (prune_expired now expire_delta st)"
| "run_call (Prune_expired_spec now expire_delta) st =
     snd (prune_expired_spec now expire_delta st)"

fun run_calls :: "call list \<Rightarrow> db \<Rightarrow> db" where
  "run_calls [] st = st"
| "run_calls (c # cs) st = run_calls cs (run_call c st)"

text \<open>
  What a run does to one key: whether the key is stored as confirmed, whether it is stored
  as unconfirmed, and how often a call of the run takes it from unconfirmed to confirmed.
\<close>

definition confirmed_at :: "int \<Rightarrow> db \<Rightarrow> bool" where
  "confirmed_at sid st = (case query_get sid st of None \<Rightarrow> False | Some m \<Rightarrow> is_confirmed m)"

definition unconfirmed_at :: "int \<Rightarrow> db \<Rightarrow> bool" where
  "unconfirmed_at sid st = (case query_get sid st of None \<Rightarrow> False | Some m \<Rightarrow> \<not> is_confirmed m)"

fun transitions :: "int \<Rightarrow> call list \<Rightarrow> db \<Rightarrow> nat" where
  "transitions sid [] st = 0"
| "transitions sid (c # cs) st =
     (if unconfirmed_at sid st \<and> confirmed_at sid (run_call c st) then 1 else 0)
     + transitions sid cs (run_call c st)"

text \<open>\<open>student_id\<close> is the primary key: no two rows share it.\<close>

definition keys_unique :: "db \<Rightarrow> bool" where
  "keys_unique st = distinct (map student_id (rows st))"

section \<open>Properties\<close>

subsection \<open>Examples used below\<close>

definition alice :: member where
  "alice = \<lparr>student_id = 900111111, email = ''alice@my.vcccd.edu'', first_name = ''Alice'',
     last_name = ''Liddell'', time_added = Some 0, confirmation_token = Some ''T0'',
     confirmation_time = Some 0, is_confirmed = False\<rparr>"

definition club :: db where
  "club = \<lparr>rows = [alice], outbox = [], stdout = []\<rparr>"

text \<open>A row whose token column holds the empty string.\<close>

definition blank :: member where
  "blank = alice\<lparr>confirmation_token := Some []\<rparr>"

text \<open>A row stored as confirmed, for which no token was ever generated.\<close>

definition founder :: member where
  "founder = alice\<lparr>confirmation_token := None, confirmation_time := None, is_confirmed := True\<rparr>"

text \<open>An unconfirmed row for which no token was ever generated.\<close>

definition newcomer :: member where
  "newcomer = alice\<lparr>confirmation_token := None, confirmation_time := None\<rparr>"

text \<open>A registration without keyword arguments, while SendGrid cannot be reached.\<close>

definition no_kwargs :: kwargs where
  "no_kwargs = \<lparr>kw_time_added = None, kw_confirmation_token = None,
     kw_confirmation_time = None, kw_is_confirmed = None\<rparr>"

definition mail_down :: env where
  "mail_down = \<lparr>utcnow_insert = 5, utcnow_token = 6, os_urandom = (\<lambda>i. 0),
     url_root = ''http://epclub.pythonanywhere.com/'',
     url_for_confirm = (\<lambda>i t. ''/confirm?confirmation_token='' @ t),
     sendgrid = Raised None\<rparr>"

text \<open>The club after Alice has confirmed.\<close>

definition confirmed_club :: db where
  "confirmed_club = club\<lparr>rows := [alice\<lparr>is_confirmed := True\<rparr>]\<rparr>"

text \<open>A new token for Alice, before and after she has confirmed.\<close>

definition reissued :: "string \<times> member \<times> db" where
  "reissued = generate_confirmation_token 7 (\<lambda>i. 0) alice club"

definition reissued_confirmed :: "string \<times> member \<times> db" where
  "reissued_confirmed =
     generate_confirmation_token 7 (\<lambda>i. 0) (alice\<lparr>is_confirmed := True\<rparr>) confirmed_club"

subsection \<open>Lookups after a write\<close>

lemma find_map_commit:
  "find (\<lambda>m. student_id m = sid) (map (\<lambda>r. if student_id r = student_id self then self else r) xs) =
     (if sid = student_id self
      then (case find (\<lambda>m. student_id m = sid) xs of None \<Rightarrow> None | Some r \<Rightarrow> Some self)
      else find (\<lambda>m. student_id m = sid) xs)"
  by (induction xs) auto

lemma query_get_commit:
  "query_get sid (commit self st) =
     (if sid = student_id self
      then (case query_get sid st of None \<Rightarrow> None | Some r \<Rightarrow> Some self)
      else query_get sid st)"
  by (simp add: query_get_def commit_def find_map_commit)

lemma msgs_distinct:
  "msg_confirmed \<noteq> msg_already_confirmed" "msg_already_confirmed \<noteq> msg_confirmed"
  by (simp_all add: msg_confirmed_def msg_already_confirmed_def)

lemma find_append_one:
  "find P (xs @ [x]) = (case find P xs of Some r \<Rightarrow> Some r | None \<Rightarrow> if P x then Some x else None)"
  by (induction xs) auto

lemma query_get_session_add:
  "query_get sid (session_add m st) =
     (case query_get sid st of Some r \<Rightarrow> Some r
      | None \<Rightarrow> if student_id m = sid then Some m else None)"
  by (simp add: query_get_def session_add_def find_append_one)

lemma query_get_outbox [simp]: "query_get sid (st\<lparr>outbox := x\<rparr>) = query_get sid st"
  by (simp add: query_get_def)

lemma query_get_stdout [simp]: "query_get sid (st\<lparr>stdout := x\<rparr>) = query_get sid st"
  by (simp add: query_get_def)

subsection \<open>The expiry test on a row\<close>

lemma has_token_expired_TypeError:
  "confirmation_time m = None \<Longrightarrow> has_token_expired now m h = Inl TypeError"
  by (simp add: has_token_expired_def get_token_expire_time_def)

lemma has_token_expired_Some:
  "confirmation_time m = Some t \<Longrightarrow> has_token_expired now m h = Inr (t + timedelta_hours h \<le> now)"
  by (simp add: has_token_expired_def get_token_expire_time_def)

subsection \<open>The loop of the sweep\<close>

text \<open>The loop stops with \<open>TypeError\<close> as soon as a row has no \<open>confirmation_time\<close>.\<close>

lemma delete_ids_loop_TypeError:
  "\<exists>m\<in>set ms. confirmation_time m = None \<Longrightarrow> delete_ids_loop now h ms acc = Inl TypeError"
proof (induction ms arbitrary: acc)
  case Nil
  then show ?case by simp
next
  case (Cons m ms)
  show ?case
  proof (cases "confirmation_time m")
    case None
    then show ?thesis by (simp add: has_token_expired_TypeError)
  next
    case (Some t)
    with Cons.prems have "\<exists>m\<in>set ms. confirmation_time m = None" by auto
    with Cons.IH Some show ?thesis by (simp add: has_token_expired_Some)
  qed
qed

text \<open>Otherwise it collects the keys of the rows whose token has expired, in order.\<close>

lemma delete_ids_loop_result:
  "\<forall>m\<in>set ms. confirmation_time m \<noteq> None \<Longrightarrow>
   delete_ids_loop now h ms acc =
     Inr (acc @ map student_id (filter (\<lambda>m. has_token_expired now m h = Inr True) ms))"
proof (induction ms arbitrary: acc)
  case Nil
  then show ?case by simp
next
  case (Cons m ms)
  then obtain t where t: "confirmation_time m = Some t" by auto
  from Cons have "delete_ids_loop now h ms acc' =
     Inr (acc' @ map student_id (filter (\<lambda>m. has_token_expired now m h = Inr True) ms))" for acc'
    by simp
  with t show ?case by (simp add: has_token_expired_Some)
qed

text \<open>
  The source's sweep ends in an exception on every database, and changes none: the list
  of keys is not a synchronisation strategy.
\<close>

lemma prune_expired_never_deletes:
  "snd (prune_expired now h st) = st \<and> (\<exists>e. fst (prune_expired now h st) = Inl e)"
  by (simp add: prune_expired_def query_delete_def split: sum.splits)

text \<open>
  The sweep in the spec's words deletes exactly the unconfirmed rows whose token has
  expired, when keys are unique and every unconfirmed row has its issue time.
\<close>

lemma prune_expired_spec_exact:
  assumes "distinct (map student_id (rows st))"
    and "\<forall>m\<in>set (rows st). \<not> is_confirmed m \<longrightarrow> confirmation_time m \<noteq> None"
  shows "prune_expired_spec now h st =
     (Inr (), st\<lparr>rows := filter (\<lambda>m. \<not> (\<not> is_confirmed m \<and> has_token_expired now m h = Inr True))
                          (rows st)\<rparr>)"
proof -
  let ?E = "\<lambda>m. has_token_expired now m h = Inr True"
  from assms(2) have "\<forall>m\<in>set (filter_by_unconfirmed st). confirmation_time m \<noteq> None"
    by (auto simp: filter_by_unconfirmed_def)
  from delete_ids_loop_result [OF this, of now h "[]"]
  have loop: "delete_ids_loop now h (filter_by_unconfirmed st) [] =
      Inr (map student_id (filter ?E (filter_by_unconfirmed st)))" by simp
  have inj: "inj_on student_id (set (rows st))"
    using assms(1) by (simp add: distinct_map)
  have "student_id m \<in> set (map student_id (filter ?E (filter_by_unconfirmed st)))
      \<longleftrightarrow> \<not> is_confirmed m \<and> ?E m" if "m \<in> set (rows st)" for m
  proof
    assume "student_id m \<in> set (map student_id (filter ?E (filter_by_unconfirmed st)))"
    then obtain m' where m': "m' \<in> set (rows st)" "\<not> is_confirmed m'" "?E m'"
        "student_id m' = student_id m"
      by (auto simp: filter_by_unconfirmed_def)
    with inj that have "m' = m" by (auto dest: inj_onD)
    with m' show "\<not> is_confirmed m \<and> ?E m" by simp
  next
    assume "\<not> is_confirmed m \<and> ?E m"
    with that show "student_id m \<in> set (map student_id (filter ?E (filter_by_unconfirmed st)))"
      by (auto simp: filter_by_unconfirmed_def)
  qed
  then have "filter (\<lambda>m. student_id m \<notin> set (map student_id (filter ?E (filter_by_unconfirmed st))))
       (rows st)
     = filter (\<lambda>m. \<not> (\<not> is_confirmed m \<and> ?E m)) (rows st)"
    by (intro filter_cong) auto
  with loop show ?thesis
    by (simp add: prune_expired_spec_def store_delete_def)
qed

subsection \<open>A registration with a new key\<close>

lemma get_or_create_new:
  assumes "query_get sid st = None"
  shows "query_get sid (snd (get_or_create sid mail_addr fname lname kw ev st)) =
           Some ((new_Member sid mail_addr fname lname kw (utcnow_insert ev))
                  \<lparr>confirmation_token := Some (token_urlsafe 32 (os_urandom ev)),
                   confirmation_time := Some (utcnow_token ev)\<rparr>)"
    and "fst (get_or_create sid mail_addr fname lname kw ev st) =
           (case sendgrid ev of
              Accepted \<Rightarrow> Inr (Some ((new_Member sid mail_addr fname lname kw (utcnow_insert ev))
                  \<lparr>confirmation_token := Some (token_urlsafe 32 (os_urandom ev)),
                   confirmation_time := Some (utcnow_token ev)\<rparr>))
            | Raised None \<Rightarrow> Inl AttributeError
            | Raised (Some text) \<Rightarrow> Inr None)"
  using assms
  by (auto simp: get_or_create_def generate_confirmation_token_def Let_def query_get_commit
      query_get_session_add new_Member_def split: send_outcome.splits option.splits)

text \<open>
  After any call the key is stored, and a second call, with whatever arguments, returns
  the stored row and leaves the database alone; it is the row the first call returned,
  when that returned one.
\<close>

lemma get_or_create_twice:
  assumes "get_or_create sid mail_addr fname lname kw ev st = (r, st1)"
  shows "query_get sid st1 \<noteq> None"
    and "get_or_create sid mail_addr' fname' lname' kw' ev' st1 = (Inr (query_get sid st1), st1)"
    and "r = Inr (Some m) \<Longrightarrow> query_get sid st1 = Some m"
proof -
  show a: "query_get sid st1 \<noteq> None"
  proof (cases "query_get sid st")
    case None
    from get_or_create_new(1) [OF None, of mail_addr fname lname kw ev] assms
    show ?thesis by simp
  next
    case (Some a)
    with assms show ?thesis by (simp add: get_or_create_def)
  qed
  then show "get_or_create sid mail_addr' fname' lname' kw' ev' st1 = (Inr (query_get sid st1), st1)"
    by (auto simp: get_or_create_def)
  show "r = Inr (Some m) \<Longrightarrow> query_get sid st1 = Some m"
  proof (cases "query_get sid st")
    case None
    assume "r = Inr (Some m)"
    with get_or_create_new [OF None, of mail_addr fname lname kw ev] assms show ?thesis
      by (auto split: send_outcome.splits option.splits)
  next
    case (Some a)
    assume "r = Inr (Some m)"
    with Some assms show ?thesis by (simp add: get_or_create_def)
  qed
qed

subsection \<open>One call and one key\<close>

lemma query_get_key: "query_get sid st = Some m \<Longrightarrow> student_id m = sid"
  by (auto simp: query_get_def find_Some_iff)

lemma query_get_in_rows: "query_get sid st = Some m \<Longrightarrow> m \<in> set (rows st)"
  by (auto simp: query_get_def find_Some_iff)

lemma query_get_None: "query_get sid st = None \<longleftrightarrow> sid \<notin> student_id ` set (rows st)"
  by (auto simp: query_get_def find_None_iff)

lemma keys_commit: "map student_id (rows (commit self st)) = map student_id (rows st)"
  by (simp add: commit_def comp_def cong: map_cong)

lemma find_filter_keys:
  "find (\<lambda>m. student_id m = sid) (filter (\<lambda>m. student_id m \<notin> S) xs) =
     (if sid \<in> S then None else find (\<lambda>m. student_id m = sid) xs)"
  by (induction xs) auto

lemma query_get_store_delete:
  "query_get sid (store_delete ids st) = (if sid \<in> set ids then None else query_get sid st)"
  by (simp add: query_get_def store_delete_def find_filter_keys)

lemma run_call_Get_or_create_lookup:
  "query_get sid st = Some m \<Longrightarrow>
   query_get sid (run_call (Get_or_create sid' a f l kw ev) st) = Some m"
proof (cases "query_get sid' st")
  case None
  assume m: "query_get sid st = Some m"
  with None have "sid \<noteq> sid'" by auto
  with m None show ?thesis
    by (auto simp: get_or_create_def generate_confirmation_token_def Let_def query_get_commit
        query_get_session_add new_Member_def split: send_outcome.splits option.splits)
next
  case (Some a)
  assume "query_get sid st = Some m"
  with Some show ?thesis by (simp add: get_or_create_def)
qed

lemma run_call_Generate_lookup:
  assumes "query_get sid st = Some m"
  shows "\<exists>m'. query_get sid (run_call (Generate_confirmation_token sid' now rb) st) = Some m'
        \<and> is_confirmed m' = is_confirmed m"
proof (cases "query_get sid' st")
  case None
  with assms show ?thesis by simp
next
  case (Some m0)
  then have k: "student_id m0 = sid'" by (rule query_get_key)
  show ?thesis
  proof (cases "sid' = sid")
    case True
    with Some assms have "m0 = m" by simp
    with Some assms k True show ?thesis
      by (simp add: generate_confirmation_token_def Let_def query_get_commit)
  next
    case False
    with Some assms k show ?thesis
      by (simp add: generate_confirmation_token_def Let_def query_get_commit)
  qed
qed

lemma run_call_Confirm_lookup:
  assumes "query_get sid st = Some m"
  shows "\<exists>m'. query_get sid (run_call (Confirm sid' now supplied h) st) = Some m'
        \<and> (is_confirmed m \<longrightarrow> is_confirmed m')
        \<and> (\<not> is_confirmed m \<and> is_confirmed m' \<longrightarrow>
             sid' = sid \<and> fst (confirm now supplied h m st) = Inr (True, msg_confirmed))"
proof (cases "query_get sid' st")
  case None
  with assms show ?thesis by simp
next
  case (Some m0)
  then have k: "student_id m0 = sid'" by (rule query_get_key)
  show ?thesis
  proof (cases "sid' = sid")
    case True
    with Some assms have "m0 = m" by simp
    with Some assms k True show ?thesis
      by (auto simp: confirm_def Let_def query_get_commit split: sum.splits)
  next
    case False
    with Some assms k show ?thesis
      by (auto simp: confirm_def Let_def query_get_commit split: sum.splits)
  qed
qed

lemma prune_expired_unchanged: "snd (prune_expired now h st) = st"
  using prune_expired_never_deletes [of now h st] by simp

lemma prune_expired_spec_cases:
  "snd (prune_expired_spec now h st) = st
   \<or> (\<exists>ids. delete_ids_loop now h (filter_by_unconfirmed st) [] = Inr ids
        \<and> snd (prune_expired_spec now h st) = store_delete ids st)"
  by (auto simp: prune_expired_spec_def split: sum.splits)

lemma delete_ids_loop_keys:
  "delete_ids_loop now h ms acc = Inr ids \<Longrightarrow> set ids \<subseteq> set acc \<union> student_id ` set ms"
proof (induction ms arbitrary: acc)
  case Nil
  then show ?case by simp
next
  case (Cons m ms)
  then show ?case
    by (fastforce split: sum.splits if_splits)
qed

lemma spec_sweep_keeps_confirmed:
  assumes "keys_unique st" and "query_get sid st = Some m" and "is_confirmed m"
  shows "query_get sid (run_call (Prune_expired_spec now h) st) = Some m"
proof -
  from prune_expired_spec_cases [of now h st] show ?thesis
  proof
    assume "snd (prune_expired_spec now h st) = st"
    with assms show ?thesis by simp
  next
    assume "\<exists>ids. delete_ids_loop now h (filter_by_unconfirmed st) [] = Inr ids
        \<and> snd (prune_expired_spec now h st) = store_delete ids st"
    then obtain ids where loop: "delete_ids_loop now h (filter_by_unconfirmed st) [] = Inr ids"
      and st': "snd (prune_expired_spec now h st) = store_delete ids st" by blast
    have "sid \<notin> set ids"
    proof
      assume "sid \<in> set ids"
      with delete_ids_loop_keys [OF loop] obtain m' where
        m': "m' \<in> set (rows st)" "\<not> is_confirmed m'" "student_id m' = sid"
        by (auto simp: filter_by_unconfirmed_def)
      from assms(2) have "m \<in> set (rows st)" "student_id m = sid"
        by (auto dest: query_get_in_rows query_get_key)
      with m' assms(1) have "m' = m"
        by (auto simp: keys_unique_def distinct_map dest: inj_onD)
      with m' assms(3) show False by simp
    qed
    with st' assms(2) show ?thesis by (simp add: query_get_store_delete)
  qed
qed

lemma spec_sweep_lookup:
  "query_get sid (run_call (Prune_expired_spec now h) st) = Some m' \<Longrightarrow> query_get sid st = Some m'"
  using prune_expired_spec_cases [of now h st]
  by (auto simp: query_get_store_delete split: if_splits)

lemma keys_unique_run_call: "keys_unique st \<Longrightarrow> keys_unique (run_call c st)"
proof (cases c)
  case (Get_or_create sid a f l kw ev)
  assume u: "keys_unique st"
  show ?thesis
  proof (cases "query_get sid st")
    case None
    then have "sid \<notin> student_id ` set (rows st)" by (simp add: query_get_None)
    with u have "keys_unique (session_add (new_Member sid a f l kw (utcnow_insert ev)) st)"
      by (simp add: keys_unique_def session_add_def new_Member_def)
    with None Get_or_create show ?thesis
      by (auto simp: get_or_create_def generate_confirmation_token_def Let_def keys_unique_def
          keys_commit split: send_outcome.splits option.splits)
  next
    case (Some a)
    with u Get_or_create show ?thesis by (simp add: get_or_create_def)
  qed
next
  case (Generate_confirmation_token sid now rb)
  assume "keys_unique st"
  with Generate_confirmation_token show ?thesis
    by (auto simp: generate_confirmation_token_def Let_def keys_unique_def keys_commit
        split: option.splits)
next
  case (Confirm sid now supplied h)
  assume "keys_unique st"
  with Confirm show ?thesis
    by (auto simp: confirm_def Let_def keys_unique_def keys_commit
        split: option.splits sum.splits)
next
  case (Prune_expired now h)
  assume "keys_unique st"
  with Prune_expired show ?thesis by (simp add: prune_expired_unchanged)
next
  case (Prune_expired_spec now h)
  assume "keys_unique st"
  with Prune_expired_spec prune_expired_spec_cases [of now h st] show ?thesis
    by (auto simp: keys_unique_def store_delete_def distinct_map_filter)
qed

lemma confirmed_at_run_call:
  assumes "keys_unique st" and "confirmed_at sid st"
  shows "confirmed_at sid (run_call c st)"
proof -
  from assms(2) obtain m where m: "query_get sid st = Some m" "is_confirmed m"
    by (auto simp: confirmed_at_def split: option.splits)
  show ?thesis
  proof (cases c)
    case (Get_or_create sid' a f l kw ev)
    with run_call_Get_or_create_lookup [OF m(1), of sid' a f l kw ev] m(2) show ?thesis
      by (simp add: confirmed_at_def)
  next
    case (Generate_confirmation_token sid' now rb)
    with run_call_Generate_lookup [OF m(1), of sid' now rb] m(2) show ?thesis
      by (auto simp: confirmed_at_def)
  next
    case (Confirm sid' now supplied h)
    with run_call_Confirm_lookup [OF m(1), of sid' now supplied h] m(2) show ?thesis
      by (auto simp: confirmed_at_def)
  next
    case (Prune_expired now h)
    with assms(2) show ?thesis by (simp add: prune_expired_unchanged)
  next
    case (Prune_expired_spec now h)
    with spec_sweep_keeps_confirmed [OF assms(1) m, of now h] m(2) show ?thesis
      by (simp add: confirmed_at_def)
  qed
qed

lemma confirmed_at_run_calls:
  "keys_unique st \<Longrightarrow> confirmed_at sid st \<Longrightarrow> confirmed_at sid (run_calls cs st)"
  by (induction cs arbitrary: st) (auto intro: confirmed_at_run_call keys_unique_run_call)

lemma transitions_confirmed:
  "keys_unique st \<Longrightarrow> confirmed_at sid st \<Longrightarrow> transitions sid cs st = 0"
proof (induction cs arbitrary: st)
  case Nil
  then show ?case by simp
next
  case (Cons c cs)
  from Cons.prems have "\<not> unconfirmed_at sid st"
    by (auto simp: confirmed_at_def unconfirmed_at_def split: option.splits)
  moreover from Cons.prems have "transitions sid cs (run_call c st) = 0"
    by (intro Cons.IH keys_unique_run_call confirmed_at_run_call)
  ultimately show ?case by simp
qed

lemma transitions_le_1: "keys_unique st \<Longrightarrow> transitions sid cs st \<le> 1"
proof (induction cs arbitrary: st)
  case Nil
  then show ?case by simp
next
  case (Cons c cs)
  then have u: "keys_unique (run_call c st)" by (simp add: keys_unique_run_call)
  show ?case
  proof (cases "confirmed_at sid (run_call c st)")
    case True
    with u have "transitions sid cs (run_call c st) = 0" by (simp add: transitions_confirmed)
    then show ?thesis by simp
  next
    case False
    with Cons.IH [OF u] show ?thesis by simp
  qed
qed

lemma only_confirm_sets:
  assumes "unconfirmed_at sid st" and "confirmed_at sid (run_call c st)"
  shows "\<exists>now supplied h m. c = Confirm sid now supplied h \<and> query_get sid st = Some m
           \<and> fst (confirm now supplied h m st) = Inr (True, msg_confirmed)"
proof -
  from assms(1) obtain m where m: "query_get sid st = Some m" "\<not> is_confirmed m"
    by (auto simp: unconfirmed_at_def split: option.splits)
  from assms(2) obtain m' where m': "query_get sid (run_call c st) = Some m'" "is_confirmed m'"
    by (auto simp: confirmed_at_def split: option.splits)
  show ?thesis
  proof (cases c)
    case (Get_or_create sid' a f l kw ev)
    with run_call_Get_or_create_lookup [OF m(1), of sid' a f l kw ev] m m' show ?thesis by simp
  next
    case (Generate_confirmation_token sid' now rb)
    with run_call_Generate_lookup [OF m(1), of sid' now rb] m m' show ?thesis by auto
  next
    case (Confirm sid' now supplied h)
    with run_call_Confirm_lookup [OF m(1), of sid' now supplied h] m m' show ?thesis by auto
  next
    case (Prune_expired now h)
    with m m' show ?thesis by (simp add: prune_expired_unchanged)
  next
    case (Prune_expired_spec now h)
    with spec_sweep_lookup [of sid now h st m'] m m' show ?thesis by simp
  qed
qed


subsection \<open>The encoding of the token\<close>

lemma length_alphabet: "length urlsafe_alphabet = 64"
  by (simp add: urlsafe_alphabet_def)

lemma distinct_alphabet: "distinct urlsafe_alphabet"
  by (simp add: urlsafe_alphabet_def)

lemma pad_not_in_alphabet: "CHR ''='' \<notin> set urlsafe_alphabet"
  by (simp add: urlsafe_alphabet_def)

lemma sextet_in: "n < 64 \<Longrightarrow> sextet n \<in> set urlsafe_alphabet"
  by (simp add: sextet_def length_alphabet)

lemma sextet_eq: "n < 64 \<Longrightarrow> m < 64 \<Longrightarrow> sextet n = sextet m \<longleftrightarrow> n = m"
  by (simp add: sextet_def nth_eq_iff_index_eq distinct_alphabet length_alphabet)

lemma byte_bound: "unat (a :: 8 word) < 256"
  using unsigned_less [of a, where ?'a = nat] by simp

lemma div_mod_eq:
  fixes x y :: nat
  assumes "x div k = y div k" and "x mod k = y mod k"
  shows "x = y"
proof -
  have "x = x div k * k + x mod k" by simp
  also have "\<dots> = y div k * k + y mod k" using assms by simp
  also have "\<dots> = y" by simp
  finally show ?thesis .
qed

lemma digits_eq:
  fixes x y x' y' :: nat
  assumes "y < k" and "y' < k" and "x * k + y = x' * k + y'"
  shows "x = x' \<and> y = y'"
proof -
  from assms(1) have "(x * k + y) div k = x" "(x * k + y) mod k = y" by simp_all
  moreover from assms(2) have "(x' * k + y') div k = x'" "(x' * k + y') mod k = y'" by simp_all
  ultimately show ?thesis using assms(3) by simp
qed

lemma quad_inj:
  fixes a b c a' b' c' :: nat
  assumes "b < 256" "c < 256" "b' < 256" "c' < 256"
    and e1: "a div 4 = a' div 4"
    and e2: "a mod 4 * 16 + b div 16 = a' mod 4 * 16 + b' div 16"
    and e3: "b mod 16 * 4 + c div 64 = b' mod 16 * 4 + c' div 64"
    and e4: "c mod 64 = c' mod 64"
  shows "a = a' \<and> b = b' \<and> c = c'"
proof -
  from assms(1,3) have "b div 16 < 16" "b' div 16 < 16" by simp_all
  from digits_eq [OF this e2] have a: "a mod 4 = a' mod 4" and b: "b div 16 = b' div 16"
    by simp_all
  from assms(2,4) have "c div 64 < 4" "c' div 64 < 4" by simp_all
  from digits_eq [OF this e3] have b': "b mod 16 = b' mod 16" and c: "c div 64 = c' div 64"
    by simp_all
  from div_mod_eq [OF e1 a] div_mod_eq [OF b b'] div_mod_eq [OF c e4] show ?thesis
    by simp
qed


lemma padding_add3: "padding (Suc (Suc (Suc n))) = padding n"
  by (simp add: padding_def mod_Suc)

lemma encode_shape:
  "\<exists>body. urlsafe_b64encode rb = body @ replicate (padding (length rb)) (CHR ''='')
     \<and> set body \<subseteq> set urlsafe_alphabet
     \<and> length body + padding (length rb) = 4 * ((length rb + 2) div 3)"
proof (induction rb rule: urlsafe_b64encode.induct)
  case 1
  show ?case by (simp add: padding_def)
next
  case (2 a)
  have "unat a div 4 < 64" "unat a mod 4 * 16 < 64" using byte_bound [of a] by auto
  then have "set [sextet (unat a div 4), sextet (unat a mod 4 * 16)] \<subseteq> set urlsafe_alphabet"
    by (simp add: sextet_in)
  then show ?case
    by (intro exI [of _ "[sextet (unat a div 4), sextet (unat a mod 4 * 16)]"])
       (simp add: padding_def numeral_2_eq_2)
next
  case (3 a b)
  have "unat a div 4 < 64" "unat a mod 4 * 16 + unat b div 16 < 64" "unat b mod 16 * 4 < 64"
    using byte_bound [of a] byte_bound [of b] by auto
  then have "set [sextet (unat a div 4), sextet (unat a mod 4 * 16 + unat b div 16),
      sextet (unat b mod 16 * 4)] \<subseteq> set urlsafe_alphabet"
    by (simp add: sextet_in)
  then show ?case
    by (intro exI [of _ "[sextet (unat a div 4), sextet (unat a mod 4 * 16 + unat b div 16),
      sextet (unat b mod 16 * 4)]"]) (simp add: padding_def)
next
  case (4 a b c bs)
  then obtain body where body: "urlsafe_b64encode bs = body @ replicate (padding (length bs)) (CHR ''='')"
    "set body \<subseteq> set urlsafe_alphabet"
    "length body + padding (length bs) = 4 * ((length bs + 2) div 3)" by blast
  let ?q = "[sextet (unat a div 4), sextet (unat a mod 4 * 16 + unat b div 16),
      sextet (unat b mod 16 * 4 + unat c div 64), sextet (unat c mod 64)]"
  have "unat a div 4 < 64" "unat a mod 4 * 16 + unat b div 16 < 64"
    "unat b mod 16 * 4 + unat c div 64 < 64" "unat c mod 64 < 64"
    using byte_bound [of a] byte_bound [of b] byte_bound [of c] by auto
  then have q: "set ?q \<subseteq> set urlsafe_alphabet" by (simp add: sextet_in)
  have len: "(length (a # b # c # bs) + 2) div 3 = Suc ((length bs + 2) div 3)"
    by simp
  have "length (?q @ body) + padding (length (a # b # c # bs))
      = 4 * ((length (a # b # c # bs) + 2) div 3)"
    unfolding len using body(3) by (simp add: padding_add3)
  moreover have "urlsafe_b64encode (a # b # c # bs)
      = (?q @ body) @ replicate (padding (length (a # b # c # bs))) (CHR ''='')"
    using body(1) by (simp add: padding_add3)
  moreover have "set (?q @ body) \<subseteq> set urlsafe_alphabet"
    using body(2) q by simp
  ultimately show ?case by blast
qed

lemma rstrip_padded:
  assumes "c \<notin> set body"
  shows "rstrip c (body @ replicate n c) = body"
proof -
  have "dropWhile (\<lambda>x. x = c) (replicate n c @ rev body) = dropWhile (\<lambda>x. x = c) (rev body)"
    by (rule dropWhile_append2) simp
  also have "\<dots> = rev body"
  proof (cases "rev body")
    case Nil
    then show ?thesis by simp
  next
    case (Cons x xs)
    then have "x \<in> set body" by (metis list.set_intros(1) set_rev)
    with assms have "x \<noteq> c" by auto
    with Cons show ?thesis by simp
  qed
  finally show ?thesis by (simp add: rstrip_def)
qed

lemma encode_token:
  "urlsafe_b64encode rb = urlsafe_unpadded rb @ replicate (padding (length rb)) (CHR ''='')"
  and urlsafe_unpadded_chars: "set (urlsafe_unpadded rb) \<subseteq> set urlsafe_alphabet"
  and urlsafe_unpadded_length: "length (urlsafe_unpadded rb) + padding (length rb) = 4 * ((length rb + 2) div 3)"
proof -
  from encode_shape [of rb] obtain body where
    body: "urlsafe_b64encode rb = body @ replicate (padding (length rb)) (CHR ''='')"
    "set body \<subseteq> set urlsafe_alphabet"
    "length body + padding (length rb) = 4 * ((length rb + 2) div 3)" by blast
  from body(2) pad_not_in_alphabet have "CHR ''='' \<notin> set body" by auto
  then have "urlsafe_unpadded rb = body"
    by (simp add: urlsafe_unpadded_def body(1) rstrip_padded)
  with body show "urlsafe_b64encode rb = urlsafe_unpadded rb @ replicate (padding (length rb)) (CHR ''='')"
    and "set (urlsafe_unpadded rb) \<subseteq> set urlsafe_alphabet"
    and "length (urlsafe_unpadded rb) + padding (length rb) = 4 * ((length rb + 2) div 3)"
    by simp_all
qed


lemma encode_inj:
  "length rb = length rb' \<Longrightarrow> urlsafe_b64encode rb = urlsafe_b64encode rb' \<Longrightarrow> rb = rb'"
proof (induction rb arbitrary: rb' rule: urlsafe_b64encode.induct)
  case 1
  then show ?case by simp
next
  case (2 a)
  then obtain a' where rb': "rb' = [a']" by (cases rb') auto
  have "unat a div 4 < 64" "unat a mod 4 * 16 < 64" "unat a' div 4 < 64" "unat a' mod 4 * 16 < 64"
    using byte_bound [of a] byte_bound [of a'] by auto
  with 2(2) rb' have "unat a div 4 = unat a' div 4" "unat a mod 4 = unat a' mod 4"
    by (simp_all add: sextet_eq)
  then have "unat a = unat a'" by (rule div_mod_eq)
  with rb' show ?case by (simp add: word_unat_eq_iff)
next
  case (3 a b)
  then obtain a' b' where rb': "rb' = [a', b']"
    by (cases rb'; cases "tl rb'") auto
  have "unat a div 4 < 64" "unat a mod 4 * 16 + unat b div 16 < 64" "unat b mod 16 * 4 < 64"
    "unat a' div 4 < 64" "unat a' mod 4 * 16 + unat b' div 16 < 64" "unat b' mod 16 * 4 < 64"
    using byte_bound [of a] byte_bound [of b] byte_bound [of a'] byte_bound [of b'] by auto
  with 3(2) rb' have e1: "unat a div 4 = unat a' div 4"
    and e2: "unat a mod 4 * 16 + unat b div 16 = unat a' mod 4 * 16 + unat b' div 16"
    and e3: "unat b mod 16 = unat b' mod 16"
    by (simp_all add: sextet_eq)
  have "unat b div 16 < 16" "unat b' div 16 < 16"
    using byte_bound [of b] byte_bound [of b'] by simp_all
  from digits_eq [OF this e2] have "unat a mod 4 = unat a' mod 4" "unat b div 16 = unat b' div 16"
    by simp_all
  with e1 e3 have "unat a = unat a'" "unat b = unat b'"
    by (auto intro: div_mod_eq)
  with rb' show ?case by (simp add: word_unat_eq_iff)
next
  case (4 a b c bs)
  then obtain a' b' c' bs' where rb': "rb' = a' # b' # c' # bs'"
    by (cases rb'; cases "tl rb'"; cases "tl (tl rb')") auto
  have bounds: "unat a div 4 < 64" "unat a mod 4 * 16 + unat b div 16 < 64"
    "unat b mod 16 * 4 + unat c div 64 < 64" "unat c mod 64 < 64"
    "unat a' div 4 < 64" "unat a' mod 4 * 16 + unat b' div 16 < 64"
    "unat b' mod 16 * 4 + unat c' div 64 < 64" "unat c' mod 64 < 64"
    using byte_bound [of a] byte_bound [of b] byte_bound [of c]
      byte_bound [of a'] byte_bound [of b'] byte_bound [of c'] by auto
  from 4(3) rb' bounds have eqs: "unat a div 4 = unat a' div 4"
    "unat a mod 4 * 16 + unat b div 16 = unat a' mod 4 * 16 + unat b' div 16"
    "unat b mod 16 * 4 + unat c div 64 = unat b' mod 16 * 4 + unat c' div 64"
    "unat c mod 64 = unat c' mod 64"
    and rest: "urlsafe_b64encode bs = urlsafe_b64encode bs'"
    by (simp_all add: sextet_eq)
  from quad_inj [OF byte_bound byte_bound byte_bound byte_bound eqs]
  have "a = a'" "b = b'" "c = c'" by (simp_all add: word_unat_eq_iff)
  moreover from 4(2) rb' have "length bs = length bs'" by simp
  with 4(1) rest have "bs = bs'" by blast
  ultimately show ?case using rb' by simp
qed

lemma urlsafe_unpadded_inj:
  assumes "length rb = length rb'" and "urlsafe_unpadded rb = urlsafe_unpadded rb'"
  shows "rb = rb'"
proof -
  from assms have "urlsafe_b64encode rb = urlsafe_b64encode rb'"
    by (simp add: encode_token [of rb] encode_token [of rb'])
  with assms(1) show ?thesis by (rule encode_inj)
qed

lemma length_token_bytes: "length (token_bytes nbytes urandom) = nbytes"
  by (simp add: token_bytes_def)

text \<open>Two sources give the same token only if the bytes read from them are the same.\<close>

lemma token_urlsafe_inj:
  assumes "token_urlsafe nbytes urandom = token_urlsafe nbytes urandom'"
  shows "\<forall>i<nbytes. urandom i = urandom' i"
proof -
  have "length (token_bytes nbytes urandom) = length (token_bytes nbytes urandom')"
    by (simp add: length_token_bytes)
  moreover from assms
  have "urlsafe_unpadded (token_bytes nbytes urandom) = urlsafe_unpadded (token_bytes nbytes urandom')"
    by (simp add: token_urlsafe_def)
  ultimately have "token_bytes nbytes urandom = token_bytes nbytes urandom'"
    by (rule urlsafe_unpadded_inj)
  then show ?thesis by (simp add: token_bytes_def)
qed

lemma token_urlsafe_chars: "set (token_urlsafe nbytes urandom) \<subseteq> set urlsafe_alphabet"
  by (simp add: token_urlsafe_def urlsafe_unpadded_chars)

lemma token_32: "length (token_urlsafe 32 urandom) = 43"
  using urlsafe_unpadded_length [of "token_bytes 32 urandom"]
  by (simp add: token_urlsafe_def length_token_bytes padding_def)

lemma token_not_missing: "\<not> token_missing (Some (token_urlsafe 32 urandom))"
  using token_32 [of urandom] by (auto simp: token_missing_def)

subsection \<open>Expiry\<close>

text \<open>
  Claim C4. \<open>has_token_expired\<close> returns true exactly when the clock has reached the
  time \<open>get_token_expire_time\<close> returns, and false exactly when it has not; that time is
  the issue time plus the window in hours. A token issued exactly the window ago has
  expired; one issued a second later has not.
\<close>

theorem has_token_expired_iff:
  "(has_token_expired now self expire_delta = Inr True \<longleftrightarrow>
      (\<exists>t. get_token_expire_time self expire_delta = Inr t \<and> t \<le> now))
   \<and> (has_token_expired now self expire_delta = Inr False \<longleftrightarrow>
      (\<exists>t. get_token_expire_time self expire_delta = Inr t \<and> now < t))
   \<and> (\<forall>issued. confirmation_time self = Some issued \<longrightarrow>
         get_token_expire_time self expire_delta = Inr (issued + expire_delta * 3600 * 1000000))
   \<and> (confirmation_time self = Some (now - timedelta_hours expire_delta) \<longrightarrow>
         has_token_expired now self expire_delta = Inr True)
   \<and> (confirmation_time self = Some (now - (timedelta_hours expire_delta - second)) \<longrightarrow>
         has_token_expired now self expire_delta = Inr False)"
  by (auto simp: has_token_expired_def get_token_expire_time_def timedelta_hours_def second_def
      split: option.splits sum.splits)

theorem has_token_expired_iff_witness:
  "has_token_expired (timedelta_hours 48) alice 48 = Inr True
   \<and> get_token_expire_time alice 48 = Inr 172800000000
   \<and> has_token_expired (timedelta_hours 48 - second) alice 48 = Inr False"
  using has_token_expired_iff [of "timedelta_hours 48" alice 48]
    has_token_expired_iff [of "timedelta_hours 48 - second" alice 48]
  by (simp add: alice_def timedelta_hours_def second_def)

subsection \<open>Confirmation\<close>

text \<open>
  Claim C1, as amended. \<open>confirm\<close> takes its cases in this order. A confirmed member gets
  success and the already-confirmed message, whatever token is supplied. Otherwise a
  member whose token is null or the empty string gets failure and the not-sent message.
  Otherwise a member whose token has expired gets failure and the expired message, also
  when the supplied token is the stored one. Otherwise a supplied token equal to the
  stored one sets \<open>is_confirmed\<close>, writes the row and gives success and the confirmed
  message. Otherwise the result is failure and the invalid-token message.
\<close>

theorem confirm_case_order:
  "(is_confirmed self \<longrightarrow>
      confirm now supplied expire_delta self st = (Inr (True, msg_already_confirmed), self, st))
   \<and> (\<not> is_confirmed self \<and> (confirmation_token self = None \<or> confirmation_token self = Some []) \<longrightarrow>
      confirm now supplied expire_delta self st = (Inr (False, msg_not_sent), self, st))
   \<and> (\<forall>tok. \<not> is_confirmed self \<and> confirmation_token self = Some tok \<and> tok \<noteq> [] \<longrightarrow>
        (has_token_expired now self expire_delta = Inr True \<longrightarrow>
           confirm now supplied expire_delta self st = (Inr (False, msg_expired), self, st))
      \<and> (has_token_expired now self expire_delta = Inr False \<and> supplied = Some tok \<longrightarrow>
           confirm now supplied expire_delta self st =
             (Inr (True, msg_confirmed), self\<lparr>is_confirmed := True\<rparr>,
              commit (self\<lparr>is_confirmed := True\<rparr>) st)
           \<and> (query_get (student_id self) st \<noteq> None \<longrightarrow>
                query_get (student_id self) (commit (self\<lparr>is_confirmed := True\<rparr>) st)
                  = Some (self\<lparr>is_confirmed := True\<rparr>)))
      \<and> (has_token_expired now self expire_delta = Inr False \<and> supplied \<noteq> Some tok \<longrightarrow>
           confirm now supplied expire_delta self st = (Inr (False, msg_invalid), self, st)))"
proof (intro conjI impI allI)
  assume "is_confirmed self"
  then show "confirm now supplied expire_delta self st
      = (Inr (True, msg_already_confirmed), self, st)"
    by (simp add: confirm_def)
next
  assume "\<not> is_confirmed self \<and> (confirmation_token self = None \<or> confirmation_token self = Some [])"
  then have "\<not> is_confirmed self" and "token_missing (confirmation_token self)"
    by (auto simp: token_missing_def)
  then show "confirm now supplied expire_delta self st = (Inr (False, msg_not_sent), self, st)"
    by (simp add: confirm_def)
next
  fix tok
  assume "\<not> is_confirmed self \<and> confirmation_token self = Some tok \<and> tok \<noteq> []"
  then have past: "\<not> is_confirmed self" "\<not> token_missing (confirmation_token self)"
    and tok: "confirmation_token self = Some tok"
    by (simp_all add: token_missing_def)
  {
    assume "has_token_expired now self expire_delta = Inr True"
    with past show "confirm now supplied expire_delta self st = (Inr (False, msg_expired), self, st)"
      by (simp add: confirm_def)
  next
    assume "has_token_expired now self expire_delta = Inr False \<and> supplied = Some tok"
    with past tok show "confirm now supplied expire_delta self st =
             (Inr (True, msg_confirmed), self\<lparr>is_confirmed := True\<rparr>,
              commit (self\<lparr>is_confirmed := True\<rparr>) st)"
      by (simp add: confirm_def Let_def)
  next
    assume "query_get (student_id self) st \<noteq> None"
    then show "query_get (student_id self) (commit (self\<lparr>is_confirmed := True\<rparr>) st)
                  = Some (self\<lparr>is_confirmed := True\<rparr>)"
      by (auto simp: query_get_commit)
  next
    assume "has_token_expired now self expire_delta = Inr False \<and> supplied \<noteq> Some tok"
    with past tok show "confirm now supplied expire_delta self st = (Inr (False, msg_invalid), self, st)"
      by (auto simp: confirm_def)
  }
qed

theorem confirm_case_order_witness:
  "confirm 0 (Some ''wrong'') 48 (alice\<lparr>is_confirmed := True\<rparr>) club
      = (Inr (True, msg_already_confirmed), alice\<lparr>is_confirmed := True\<rparr>, club)
   \<and> confirm 0 (Some ''T0'') 48 newcomer club = (Inr (False, msg_not_sent), newcomer, club)
   \<and> confirm (timedelta_hours 48) (Some ''T0'') 48 alice club = (Inr (False, msg_expired), alice, club)
   \<and> confirm (timedelta_hours 1) (Some ''T0'') 48 alice club
       = (Inr (True, msg_confirmed), alice\<lparr>is_confirmed := True\<rparr>,
          club\<lparr>rows := [alice\<lparr>is_confirmed := True\<rparr>]\<rparr>)
   \<and> confirm (timedelta_hours 1) (Some ''wrong-token'') 48 alice club
       = (Inr (False, msg_invalid), alice, club)"
  using confirm_case_order [of "alice\<lparr>is_confirmed := True\<rparr>" 0 "Some ''wrong''" 48 club]
    confirm_case_order [of newcomer 0 "Some ''T0''" 48 club]
    confirm_case_order [of alice "timedelta_hours 48" "Some ''T0''" 48 club]
    confirm_case_order [of alice "timedelta_hours 1" "Some ''T0''" 48 club]
    confirm_case_order [of alice "timedelta_hours 1" "Some ''wrong-token''" 48 club]
  by (simp add: alice_def newcomer_def club_def has_token_expired_def get_token_expire_time_def
      timedelta_hours_def second_def commit_def)

text \<open>
  Claim C1 as stated fails on a row whose token is the empty string: the token is not
  null, it has not expired and the supplied token equals it, yet the answer is the
  not-sent failure and the member stays unconfirmed.
\<close>

theorem confirm_empty_token_counterexample:
  "\<not> is_confirmed blank \<and> confirmation_token blank \<noteq> None
   \<and> has_token_expired 0 blank 48 = Inr False
   \<and> confirmation_token blank = Some []
   \<and> confirm 0 (Some []) 48 blank club = (Inr (False, msg_not_sent), blank, club)"
  by (simp add: blank_def alice_def confirm_def token_missing_def has_token_expired_def
      get_token_expire_time_def timedelta_hours_def second_def)

text \<open>
  Claim C5, as amended. For an unconfirmed member whose token is null, \<open>confirm\<close> returns
  failure with the not-sent message for every supplied token, clock and window, and
  changes nothing.
\<close>

theorem confirm_without_token:
  "\<not> is_confirmed self \<Longrightarrow> confirmation_token self = None \<Longrightarrow>
   confirm now supplied expire_delta self st = (Inr (False, msg_not_sent), self, st)"
  by (simp add: confirm_def token_missing_def)

theorem confirm_without_token_witness:
  "\<not> is_confirmed newcomer \<and> confirmation_token newcomer = None
   \<and> confirm 0 (Some ''T0'') 48 newcomer club = (Inr (False, msg_not_sent), newcomer, club)"
  using confirm_without_token [of newcomer 0 "Some ''T0''" 48 club]
  by (simp add: newcomer_def alice_def)

text \<open>
  Claim C5 as stated fails on a member stored as confirmed without a token: the first
  case of \<open>confirm\<close> answers success before the token is looked at.
\<close>

theorem confirm_without_token_counterexample:
  "confirmation_token founder = None
   \<and> confirm 0 None 48 founder club = (Inr (True, msg_already_confirmed), founder, club)"
  by (simp add: founder_def alice_def confirm_def)

text \<open>
  Claim C9. Whatever \<open>confirm\<close> returns other than success with the confirmed message
  (a failure, the already-confirmed answer, an exception), the object and the database
  are as before. The confirming branch is taken only by an unconfirmed member with a
  matching, unexpired token; it changes \<open>is_confirmed\<close> of the object and nothing else,
  writes that object to the rows with its key, and leaves the other rows, the outbox and
  the output alone.
\<close>

theorem confirm_frame:
  "confirm now supplied expire_delta self st = (res, self', st') \<Longrightarrow>
     (res \<noteq> Inr (True, msg_confirmed) \<longrightarrow> self' = self \<and> st' = st)
   \<and> (res = Inr (True, msg_confirmed) \<longrightarrow>
        \<not> is_confirmed self \<and> confirmation_token self = supplied
        \<and> has_token_expired now self expire_delta = Inr False
        \<and> self' = self\<lparr>is_confirmed := True\<rparr>
        \<and> rows st' = map (\<lambda>r. if student_id r = student_id self
                               then self\<lparr>is_confirmed := True\<rparr> else r) (rows st)
        \<and> outbox st' = outbox st \<and> stdout st' = stdout st)
   \<and> ((\<exists>msg. res = Inr (False, msg)) \<or> res = Inr (True, msg_already_confirmed)
        \<or> (\<exists>e. res = Inl e) \<or> res = Inr (True, msg_confirmed))"
proof -
  assume run: "confirm now supplied expire_delta self st = (res, self', st')"
  consider (already) "is_confirmed self"
    | (not_sent) "\<not> is_confirmed self" "token_missing (confirmation_token self)"
    | (raised) e where "\<not> is_confirmed self" "\<not> token_missing (confirmation_token self)"
        "has_token_expired now self expire_delta = Inl e"
    | (expired) "\<not> is_confirmed self" "\<not> token_missing (confirmation_token self)"
        "has_token_expired now self expire_delta = Inr True"
    | (match) "\<not> is_confirmed self" "\<not> token_missing (confirmation_token self)"
        "has_token_expired now self expire_delta = Inr False" "confirmation_token self = supplied"
    | (mismatch) "\<not> is_confirmed self" "\<not> token_missing (confirmation_token self)"
        "has_token_expired now self expire_delta = Inr False" "confirmation_token self \<noteq> supplied"
    by (cases "has_token_expired now self expire_delta") auto
  then show ?thesis
  proof cases
    case already
    with run have "res = Inr (True, msg_already_confirmed)" "self' = self" "st' = st"
      by (simp_all add: confirm_def)
    then show ?thesis by (simp add: msgs_distinct)
  next
    case not_sent
    with run have "res = Inr (False, msg_not_sent)" "self' = self" "st' = st"
      by (simp_all add: confirm_def)
    then show ?thesis by simp
  next
    case raised
    with run have "res = Inl e" "self' = self" "st' = st"
      by (simp_all add: confirm_def)
    then show ?thesis by simp
  next
    case expired
    with run have "res = Inr (False, msg_expired)" "self' = self" "st' = st"
      by (simp_all add: confirm_def)
    then show ?thesis by simp
  next
    case match
    with run have "res = Inr (True, msg_confirmed)" "self' = self\<lparr>is_confirmed := True\<rparr>"
      "st' = commit (self\<lparr>is_confirmed := True\<rparr>) st"
      by (auto simp: confirm_def Let_def)
    with match show ?thesis by (simp add: commit_def)
  next
    case mismatch
    with run have "res = Inr (False, msg_invalid)" "self' = self" "st' = st"
      by (simp_all add: confirm_def)
    then show ?thesis by simp
  qed
qed

theorem confirm_frame_witness:
  "confirm (timedelta_hours 1) (Some ''T0'') 48 alice club
     = (Inr (True, msg_confirmed), alice\<lparr>is_confirmed := True\<rparr>,
        club\<lparr>rows := [alice\<lparr>is_confirmed := True\<rparr>]\<rparr>)
   \<and> rows (club\<lparr>rows := [alice\<lparr>is_confirmed := True\<rparr>]\<rparr>)
       = map (\<lambda>r. if student_id r = student_id alice then alice\<lparr>is_confirmed := True\<rparr> else r)
           (rows club)
   \<and> confirm (timedelta_hours 49) (Some ''T0'') 48 alice club = (Inr (False, msg_expired), alice, club)"
proof -
  have ok: "confirm (timedelta_hours 1) (Some ''T0'') 48 alice club
     = (Inr (True, msg_confirmed), alice\<lparr>is_confirmed := True\<rparr>,
        club\<lparr>rows := [alice\<lparr>is_confirmed := True\<rparr>]\<rparr>)"
    by (simp add: confirm_def alice_def club_def token_missing_def has_token_expired_def
        get_token_expire_time_def timedelta_hours_def second_def commit_def Let_def)
  have late: "confirm (timedelta_hours 49) (Some ''T0'') 48 alice club
     = (Inr (False, msg_expired), alice, club)"
    by (simp add: confirm_def alice_def club_def token_missing_def has_token_expired_def
        get_token_expire_time_def timedelta_hours_def second_def)
  from confirm_frame [OF ok] confirm_frame [OF late] ok late show ?thesis
    by simp
qed

subsection \<open>Registration\<close>

text \<open>
  Claim C3. When the key is already stored, \<open>get_or_create\<close> returns the stored row as
  it is, whatever address and names are passed, and the database after the call is the
  database before it: no row is written and no message is sent.
\<close>

theorem get_or_create_existing:
  "query_get sid st = Some m \<Longrightarrow>
   get_or_create sid mail_addr fname lname kw ev st = (Inr (Some m), st)"
  by (simp add: get_or_create_def)

theorem get_or_create_existing_witness:
  "query_get 900111111 club = Some alice
   \<and> get_or_create 900111111 ''other@my.vcccd.edu'' ''Al'' ''Ice'' no_kwargs mail_down club
       = (Inr (Some alice), club)"
proof -
  have stored: "query_get 900111111 club = Some alice"
    by (simp add: query_get_def club_def alice_def)
  from get_or_create_existing [OF stored] stored show ?thesis
    by simp
qed

text \<open>
  Claim C7, at the input where the code departs from it. SendGrid raises an exception
  without a \<open>message\<close> attribute during the registration of a new key: the handler's
  \<open>print(e.message)\<close> raises \<open>AttributeError\<close>, which leaves \<open>get_or_create\<close>
  instead of the \<open>None\<close> of the next line. The new row stays stored.
\<close>

theorem get_or_create_raises:
  "query_get 900222222 club = None
   \<and> fst (get_or_create 900222222 ''bob@my.vcccd.edu'' ''Bob'' ''Roe'' no_kwargs mail_down club)
       = Inl AttributeError
   \<and> map student_id (rows (snd (get_or_create 900222222 ''bob@my.vcccd.edu'' ''Bob'' ''Roe''
        no_kwargs mail_down club))) = [900111111, 900222222]"
  by (simp add: get_or_create_def query_get_def club_def alice_def mail_down_def no_kwargs_def
      session_add_def generate_confirmation_token_def commit_def Let_def new_Member_def)

subsection \<open>Pruning\<close>

text \<open>
  Claim C10. For a member without \<open>confirmation_time\<close> both \<open>get_token_expire_time\<close>
  and \<open>has_token_expired\<close> raise \<open>TypeError\<close> and return nothing. The sweep, the
  source's and the spec's, raises that error and deletes nothing as soon as one
  unconfirmed row lacks the time, and its loop runs to its end exactly when every
  unconfirmed row has one.
\<close>

theorem expiry_needs_confirmation_time:
  "(confirmation_time self = None \<longrightarrow>
      get_token_expire_time self h = Inl TypeError \<and> has_token_expired now self h = Inl TypeError)
   \<and> ((\<exists>m\<in>set (rows st). \<not> is_confirmed m \<and> confirmation_time m = None) \<longrightarrow>
        prune_expired now h st = (Inl TypeError, st)
        \<and> prune_expired_spec now h st = (Inl TypeError, st))
   \<and> ((\<exists>ids. delete_ids_loop now h (filter_by_unconfirmed st) [] = Inr ids) \<longleftrightarrow>
        (\<forall>m\<in>set (rows st). \<not> is_confirmed m \<longrightarrow> confirmation_time m \<noteq> None))"
proof (intro conjI impI)
  assume "confirmation_time self = None"
  then show "get_token_expire_time self h = Inl TypeError"
    and "has_token_expired now self h = Inl TypeError"
    by (simp_all add: get_token_expire_time_def has_token_expired_def)
next
  assume "\<exists>m\<in>set (rows st). \<not> is_confirmed m \<and> confirmation_time m = None"
  then have "\<exists>m\<in>set (filter_by_unconfirmed st). confirmation_time m = None"
    by (auto simp: filter_by_unconfirmed_def)
  then have loop: "delete_ids_loop now h (filter_by_unconfirmed st) [] = Inl TypeError"
    by (rule delete_ids_loop_TypeError)
  then show "prune_expired now h st = (Inl TypeError, st)"
    and "prune_expired_spec now h st = (Inl TypeError, st)"
    by (simp_all add: prune_expired_def prune_expired_spec_def)
next
  show "(\<exists>ids. delete_ids_loop now h (filter_by_unconfirmed st) [] = Inr ids) \<longleftrightarrow>
        (\<forall>m\<in>set (rows st). \<not> is_confirmed m \<longrightarrow> confirmation_time m \<noteq> None)"
  proof
    assume ok: "\<exists>ids. delete_ids_loop now h (filter_by_unconfirmed st) [] = Inr ids"
    show "\<forall>m\<in>set (rows st). \<not> is_confirmed m \<longrightarrow> confirmation_time m \<noteq> None"
    proof (rule ccontr)
      assume "\<not> ?thesis"
      then have "\<exists>m\<in>set (filter_by_unconfirmed st). confirmation_time m = None"
        by (auto simp: filter_by_unconfirmed_def)
      from delete_ids_loop_TypeError [OF this] ok show False by simp
    qed
  next
    assume "\<forall>m\<in>set (rows st). \<not> is_confirmed m \<longrightarrow> confirmation_time m \<noteq> None"
    then have "\<forall>m\<in>set (filter_by_unconfirmed st). confirmation_time m \<noteq> None"
      by (auto simp: filter_by_unconfirmed_def)
    from delete_ids_loop_result [OF this]
    show "\<exists>ids. delete_ids_loop now h (filter_by_unconfirmed st) [] = Inr ids"
      by simp
  qed
qed

theorem expiry_needs_confirmation_time_witness:
  "get_token_expire_time newcomer 48 = Inl TypeError
   \<and> has_token_expired 0 newcomer 48 = Inl TypeError
   \<and> prune_expired 0 48 (club\<lparr>rows := [alice, newcomer]\<rparr>)
       = (Inl TypeError, club\<lparr>rows := [alice, newcomer]\<rparr>)
   \<and> delete_ids_loop 0 48 (filter_by_unconfirmed club) [] = Inr []"
proof -
  have "delete_ids_loop 0 48 (filter_by_unconfirmed club) [] = Inr []"
    by (simp add: filter_by_unconfirmed_def club_def alice_def has_token_expired_def
        get_token_expire_time_def timedelta_hours_def second_def)
  with expiry_needs_confirmation_time [of newcomer 48 0 "club\<lparr>rows := [alice, newcomer]\<rparr>"]
    expiry_needs_confirmation_time [of alice 48 0 club]
  show ?thesis
    by (simp add: newcomer_def alice_def club_def)
qed

text \<open>
  Claim C2, at the input where the code departs from it. One unconfirmed member whose
  token was issued 49 hours ago, and a window of 48 hours: the loop collects the member's
  key, \<open>Member.query.delete\<close> refuses the list, and the row is still there. The sweep in
  the spec's words removes it.
\<close>

theorem prune_expired_refuses_id_list:
  "\<not> is_confirmed alice \<and> rows club = [alice]
   \<and> has_token_expired (timedelta_hours 49) alice 48 = Inr True
   \<and> delete_ids_loop (timedelta_hours 49) 48 (filter_by_unconfirmed club) [] = Inr [900111111]
   \<and> prune_expired (timedelta_hours 49) 48 club = (Inl ArgumentError, club)
   \<and> prune_expired_spec (timedelta_hours 49) 48 club = (Inr (), club\<lparr>rows := []\<rparr>)"
  by (simp add: prune_expired_def prune_expired_spec_def query_delete_def store_delete_def
      filter_by_unconfirmed_def club_def alice_def has_token_expired_def
      get_token_expire_time_def timedelta_hours_def second_def)

subsection \<open>Runs\<close>

text \<open>
  Claim C6. Take a database with unique keys and any run of calls: registrations, token
  generations, confirmations and sweeps (the source's, and the spec's, which deletes).
  A key stored as confirmed is stored as confirmed after the run. Along the run a key goes
  from unconfirmed to confirmed at most once. The one call that takes a key from
  unconfirmed to confirmed is \<open>confirm\<close> on that member, returning success with
  the confirmed message.
\<close>

theorem is_confirmed_never_reset:
  assumes "keys_unique st"
  shows "(confirmed_at sid st \<longrightarrow> confirmed_at sid (run_calls cs st))
    \<and> transitions sid cs st \<le> 1
    \<and> (unconfirmed_at sid st \<and> confirmed_at sid (run_call c st) \<longrightarrow>
         (\<exists>now supplied h m. c = Confirm sid now supplied h \<and> query_get sid st = Some m
            \<and> fst (confirm now supplied h m st) = Inr (True, msg_confirmed)))"
proof (intro conjI impI)
  assume "confirmed_at sid st"
  with assms show "confirmed_at sid (run_calls cs st)"
    by (rule confirmed_at_run_calls)
next
  from assms show "transitions sid cs st \<le> 1"
    by (rule transitions_le_1)
next
  assume "unconfirmed_at sid st \<and> confirmed_at sid (run_call c st)"
  then show "\<exists>now supplied h m. c = Confirm sid now supplied h \<and> query_get sid st = Some m
            \<and> fst (confirm now supplied h m st) = Inr (True, msg_confirmed)"
    by (blast dest: only_confirm_sets)
qed

theorem is_confirmed_never_reset_witness:
  "keys_unique club \<and> keys_unique confirmed_club
   \<and> unconfirmed_at 900111111 club
   \<and> run_call (Confirm 900111111 (timedelta_hours 1) (Some ''T0'') 48) club = confirmed_club
   \<and> confirmed_at 900111111 confirmed_club
   \<and> confirmed_at 900111111
       (run_calls [Confirm 900111111 (timedelta_hours 2) (Some ''wrong-token'') 48,
                   Generate_confirmation_token 900111111 (timedelta_hours 3) (\<lambda>i. 0),
                   Prune_expired_spec (timedelta_hours 99) 48] confirmed_club)
   \<and> transitions 900111111
       [Confirm 900111111 (timedelta_hours 1) (Some ''T0'') 48,
        Confirm 900111111 (timedelta_hours 2) (Some ''T0'') 48] club \<le> 1"
proof -
  have u1: "keys_unique club" and u2: "keys_unique confirmed_club"
    by (simp_all add: keys_unique_def club_def confirmed_club_def)
  have un: "unconfirmed_at 900111111 club"
    by (simp add: unconfirmed_at_def query_get_def club_def alice_def)
  have step: "run_call (Confirm 900111111 (timedelta_hours 1) (Some ''T0'') 48) club = confirmed_club"
    by (simp add: query_get_def club_def alice_def confirmed_club_def confirm_def token_missing_def
        has_token_expired_def get_token_expire_time_def timedelta_hours_def second_def commit_def
        Let_def)
  have c: "confirmed_at 900111111 confirmed_club"
    by (simp add: confirmed_at_def query_get_def club_def alice_def confirmed_club_def)
  from is_confirmed_never_reset [OF u2, of 900111111
      "[Confirm 900111111 (timedelta_hours 2) (Some ''wrong-token'') 48,
        Generate_confirmation_token 900111111 (timedelta_hours 3) (\<lambda>i. 0),
        Prune_expired_spec (timedelta_hours 99) 48]"] c
    is_confirmed_never_reset [OF u1, of 900111111
      "[Confirm 900111111 (timedelta_hours 1) (Some ''T0'') 48,
        Confirm 900111111 (timedelta_hours 2) (Some ''T0'') 48]"]
    u1 u2 un step
  show ?thesis by blast
qed

subsection \<open>Token generation\<close>

text \<open>
  Claim C8, as amended. \<open>generate_confirmation_token\<close> reads 32 bytes of the random
  source and returns a token of 43 characters, each a letter, a digit, \<open>-\<close> or
  \<open>_\<close>; sources that differ in one of the 32 bytes give different tokens, so the token
  carries the 32 bytes of the draw. It stores the token and the current time in the
  object and writes the object to its row. For an unconfirmed member, \<open>confirm\<close> with
  the token held before fails after that, at any time and for any window, provided the
  new token differs from the old one.
\<close>

theorem generate_confirmation_token_fresh:
  assumes "generate_confirmation_token now urandom self st = (tok, self', st')"
  shows "tok = token_urlsafe 32 urandom \<and> length tok = 43 \<and> set tok \<subseteq> set urlsafe_alphabet
     \<and> (\<forall>urandom'. token_urlsafe 32 urandom' = tok \<longrightarrow> (\<forall>i<32. urandom' i = urandom i))
     \<and> self' = self\<lparr>confirmation_token := Some tok, confirmation_time := Some now\<rparr>
     \<and> st' = commit self' st
     \<and> (query_get (student_id self) st \<noteq> None \<longrightarrow> query_get (student_id self) st' = Some self')
     \<and> (\<forall>old now' h. \<not> is_confirmed self \<and> confirmation_token self = Some old \<and> old \<noteq> tok \<longrightarrow>
          (\<exists>msg. confirm now' (Some old) h self' st' = (Inr (False, msg), self', st')))"
proof -
  from assms have tok: "tok = token_urlsafe 32 urandom"
    and self': "self' = self\<lparr>confirmation_token := Some tok, confirmation_time := Some now\<rparr>"
    and st': "st' = commit self' st"
    by (auto simp: generate_confirmation_token_def Let_def)
  from tok have len: "length tok = 43" by (simp add: token_32)
  from tok have chars: "set tok \<subseteq> set urlsafe_alphabet" by (simp add: token_urlsafe_chars)
  have inj: "\<forall>urandom'. token_urlsafe 32 urandom' = tok \<longrightarrow> (\<forall>i<32. urandom' i = urandom i)"
    using tok by (auto dest: token_urlsafe_inj)
  have stored: "query_get (student_id self) st \<noteq> None \<longrightarrow>
      query_get (student_id self) st' = Some self'"
    using self' st' by (auto simp: query_get_commit)
  have old: "\<exists>msg. confirm now' (Some old) h self' st' = (Inr (False, msg), self', st')"
    if "\<not> is_confirmed self" and "old \<noteq> tok" for old now' h
  proof -
    from tok have "\<not> token_missing (confirmation_token self')"
      using self' by (simp add: token_not_missing)
    moreover from self' have "has_token_expired now' self' h = Inr (now + timedelta_hours h \<le> now')"
      by (simp add: has_token_expired_Some)
    moreover from self' that have "\<not> is_confirmed self'" "confirmation_token self' \<noteq> Some old"
      by auto
    ultimately show ?thesis by (simp add: confirm_def)
  qed
  from tok len chars inj self' st' stored old show ?thesis by blast
qed

theorem generate_confirmation_token_fresh_witness:
  "length (fst reissued) = 43
   \<and> set (fst reissued) \<subseteq> set urlsafe_alphabet
   \<and> confirmation_time (fst (snd reissued)) = Some 7
   \<and> query_get 900111111 (snd (snd reissued)) = Some (fst (snd reissued))
   \<and> (\<exists>msg. confirm 8 (Some ''T0'') 48 (fst (snd reissued)) (snd (snd reissued))
         = (Inr (False, msg), fst (snd reissued), snd (snd reissued)))"
proof -
  have g: "generate_confirmation_token 7 (\<lambda>i. 0) alice club
      = (fst reissued, fst (snd reissued), snd (snd reissued))"
    by (simp add: reissued_def)
  have a: "\<not> is_confirmed alice" "confirmation_token alice = Some ''T0''" "student_id alice = 900111111"
    "query_get 900111111 club \<noteq> None"
    by (simp_all add: alice_def club_def query_get_def)
  note fresh = generate_confirmation_token_fresh [OF g]
  from fresh have l: "length (fst reissued) = 43" by blast
  from fresh have ch: "set (fst reissued) \<subseteq> set urlsafe_alphabet" by blast
  have ne: "''T0'' \<noteq> fst reissued"
  proof
    assume "''T0'' = fst reissued"
    then have "length (fst reissued) = length ''T0''" by simp
    with l show False by simp
  qed
  from fresh have "fst (snd reissued)
      = alice\<lparr>confirmation_token := Some (fst reissued), confirmation_time := Some 7\<rparr>"
    by blast
  then have t: "confirmation_time (fst (snd reissued)) = Some 7" by simp
  from fresh have "query_get (student_id alice) club \<noteq> None \<longrightarrow>
      query_get (student_id alice) (snd (snd reissued)) = Some (fst (snd reissued))"
    by blast
  with a(3,4) have q: "query_get 900111111 (snd (snd reissued)) = Some (fst (snd reissued))"
    by simp
  from fresh have "\<forall>old now' h. \<not> is_confirmed alice \<and> confirmation_token alice = Some old
      \<and> old \<noteq> fst reissued \<longrightarrow>
      (\<exists>msg. confirm now' (Some old) h (fst (snd reissued)) (snd (snd reissued))
         = (Inr (False, msg), fst (snd reissued), snd (snd reissued)))"
    by blast
  with a(1,2) ne have c: "\<exists>msg. confirm 8 (Some ''T0'') 48 (fst (snd reissued)) (snd (snd reissued))
         = (Inr (False, msg), fst (snd reissued), snd (snd reissued))"
    by blast
  from l ch t q c show ?thesis by blast
qed

text \<open>
  Claim C8 as stated fails on a confirmed member: after a new token is generated,
  \<open>confirm\<close> with the old token answers success with the already-confirmed message.
\<close>

theorem regenerate_confirmed_counterexample:
  "confirmation_token (alice\<lparr>is_confirmed := True\<rparr>) = Some ''T0''
   \<and> fst reissued_confirmed \<noteq> ''T0''
   \<and> confirmation_token (fst (snd reissued_confirmed)) = Some (fst reissued_confirmed)
   \<and> fst (confirm 8 (Some ''T0'') 48 (fst (snd reissued_confirmed)) (snd (snd reissued_confirmed)))
       = Inr (True, msg_already_confirmed)"
proof -
  have "length (fst reissued_confirmed) = 43"
    by (simp add: reissued_confirmed_def generate_confirmation_token_def Let_def token_32)
  then have "fst reissued_confirmed \<noteq> ''T0''" by auto
  then show ?thesis
    by (simp add: reissued_confirmed_def generate_confirmation_token_def Let_def alice_def
        confirm_def)
qed

end
